theory Spec2Isabelle
  imports Complex_Main "HOL-Library.Word"
begin

unbundle bit_operations_syntax

section \<open>Buffers, JavaScript values and exceptions\<close>

text \<open>
  A Node \<open>Buffer\<close> is a list of octets. The repository holds three versions of the relay:
  \<open>src/inbound-calls.js\<close> (the module \<open>src/index.js\<close> imports), and two further files
  of unknown name in \<open>src/unnamed/part_000\<close>. The first of those (lines 1-281) has the
  container normalizer \<open>ensureRawUlawBase64\<close>; the second (lines 281-600) is an earlier
  form of the paced relay. Names of the source are kept; a function of the first unnamed
  file that shares its name with one of \<open>inbound-calls.js\<close> carries the suffix \<open>_v1\<close>,
  one of the second unnamed file the suffix \<open>_v2\<close>.
\<close>

type_synonym byte = "8 word"
type_synonym buffer = "byte list"

datatype js_error = TypeError | RangeError | SyntaxError | Error string

text \<open>A computation of a handler body: it returns, or it throws; either way the state
  reached so far stays (the variables of the closure are mutated in place).\<close>

datatype 'a outcome = Returned 'a | Threw js_error 'a

fun caught :: "'a outcome \<Rightarrow> 'a" where
  "caught (Returned s) = s"
| "caught (Threw e s) = s"

fun andThen :: "'a outcome \<Rightarrow> ('a \<Rightarrow> 'a outcome) \<Rightarrow> 'a outcome" where
  "andThen (Returned s) f = f s"
| "andThen (Threw e s) f = Threw e s"

definition ascii :: "string \<Rightarrow> buffer" where
  "ascii s = map of_char s"

text \<open>\<open>buf.slice(start, end)\<close> and \<open>buf.subarray(start, end)\<close> for indices that are not
  negative: both ends are clamped to the length of the buffer.\<close>

definition subarray :: "buffer \<Rightarrow> nat \<Rightarrow> nat \<Rightarrow> buffer" where
  "subarray buf start stop = take (min stop (length buf) - start) (drop start buf)"

text \<open>\<open>readUInt16LE\<close> and \<open>readUInt32LE\<close> throw a RangeError when the read leaves the buffer.\<close>

definition readUInt16LE :: "buffer \<Rightarrow> nat \<Rightarrow> js_error + nat" where
  "readUInt16LE buf off =
     (if off + 2 \<le> length buf
      then Inr (unat (buf ! off) + 256 * unat (buf ! (off + 1)))
      else Inl RangeError)"

definition readUInt32LE :: "buffer \<Rightarrow> nat \<Rightarrow> js_error + nat" where
  "readUInt32LE buf off =
     (if off + 4 \<le> length buf
      then Inr (unat (buf ! off) + 256 * unat (buf ! (off + 1))
                + 65536 * unat (buf ! (off + 2)) + 16777216 * unat (buf ! (off + 3)))
      else Inl RangeError)"

text \<open>\<open>buf.indexOf(pattern)\<close>: the first position where the pattern starts; \<open>None\<close> is
  JavaScript's \<open>-1\<close>.\<close>

fun indexOf :: "buffer \<Rightarrow> buffer \<Rightarrow> nat option" where
  "indexOf [] pat = None"
| "indexOf (b # bs) pat =
     (if take (length pat) (b # bs) = pat then Some 0
      else map_option Suc (indexOf bs pat))"

text \<open>The values \<open>JSON.parse\<close> produces, and \<open>undefined\<close> for a property that is absent.\<close>

datatype jsval =
    JUndefined
  | JNull
  | JBool bool
  | JNum rat
  | JStr string
  | JArr "jsval list"
  | JObj "(string \<times> jsval) list"

fun truthy :: "jsval \<Rightarrow> bool" where
  "truthy JUndefined = False"
| "truthy JNull = False"
| "truthy (JBool b) = b"
| "truthy (JNum r) = (r \<noteq> 0)"
| "truthy (JStr s) = (s \<noteq> [])"
| "truthy (JArr xs) = True"
| "truthy (JObj kvs) = True"

text \<open>Reading a property \<open>v.k\<close>: a TypeError on \<open>null\<close> and \<open>undefined\<close>, the field of an
  object, \<open>undefined\<close> otherwise (none of the property names the relay reads is one a
  string, number, boolean or array carries by itself).\<close>

fun getProp :: "jsval \<Rightarrow> string \<Rightarrow> js_error + jsval" where
  "getProp JUndefined k = Inl TypeError"
| "getProp JNull k = Inl TypeError"
| "getProp (JObj kvs) k = Inr (case map_of kvs k of Some v \<Rightarrow> v | None \<Rightarrow> JUndefined)"
| "getProp v k = Inr JUndefined"

text \<open>The same read where the receiver was tested first (\<open>a && a.k\<close>, \<open>a?.k\<close>).\<close>

definition field :: "jsval \<Rightarrow> string \<Rightarrow> jsval" where
  "field v k = (case getProp v k of Inr x \<Rightarrow> x | Inl e \<Rightarrow> JUndefined)"

text \<open>\<open>a || b\<close> on values.\<close>

definition jsOr :: "jsval \<Rightarrow> jsval \<Rightarrow> jsval" where
  "jsOr a b = (if truthy a then a else b)"

text \<open>A value inside a template literal (\<open>`sid=${v}`\<close>) is converted to a string, and the
  conversion can throw. On what \<open>JSON.parse\<close> produces: a string, a number, a boolean,
  \<open>null\<close> and \<open>undefined\<close> always convert; an object converts (to \<open>[object Object]\<close>)
  unless it has a property \<open>toString\<close> of its own, which is never a function, so that
  nothing gives a primitive and the conversion throws a TypeError; an array is joined, which
  converts each of its elements. \<open>stringifies v\<close> says that the conversion of \<open>v\<close> returns.\<close>

fun stringifies :: "jsval \<Rightarrow> bool" where
  "stringifies (JObj kvs) = (map_of kvs ''toString'' = None)"
| "stringifies (JArr xs) = list_all stringifies xs"
| "stringifies v = True"

text \<open>A line that logs a template literal over the values \<open>vs\<close>: it writes to the console,
  which is not part of the state, or it throws.\<close>

definition logTemplate :: "jsval list \<Rightarrow> 'a \<Rightarrow> 'a outcome" where
  "logTemplate vs s = (if list_all stringifies vs then Returned s else Threw TypeError s)"

text \<open>Node's base64 codec is not code of the repository; the relay is modelled over any
  codec: \<open>from_base64 v\<close> is \<open>Buffer.from(v, "base64")\<close> (which throws on some arguments
  that are not strings), \<open>to_base64 b\<close> is \<open>b.toString("base64")\<close>.\<close>

record buffer_api =
  from_base64 :: "jsval \<Rightarrow> js_error + buffer"
  to_base64 :: "buffer \<Rightarrow> string"

section \<open>Frame packetizer\<close>

definition FRAME_BYTES :: nat where
  "FRAME_BYTES = 160"

definition FRAME_INTERVAL_MS :: nat where
  "FRAME_INTERVAL_MS = 20"

text \<open>The slicing loop of \<open>enqueueELBase64\<close> (inbound-calls.js:112-115) and of the audio
  case of the first unnamed file (part_000:210-217):
  \<open>for (i = 0; i < buf.length; i += 160) buf.subarray(i, Math.min(i + 160, buf.length))\<close>.
  \<open>packetize buf i\<close> lists the frames the loop cuts from index \<open>i\<close> on.\<close>

function packetize :: "buffer \<Rightarrow> nat \<Rightarrow> buffer list" where
  "packetize buf i =
     (if i < length buf
      then subarray buf i (min (i + FRAME_BYTES) (length buf)) # packetize buf (i + FRAME_BYTES)
      else [])"
  by pat_completeness auto
termination
  by (relation "measure (\<lambda>(buf, i). length buf - i)") (auto simp: FRAME_BYTES_def)

declare packetize.simps [simp del]

section \<open>Container normalizer (first unnamed file, part_000:3-72)\<close>

record wav_format =
  audioFormat :: "nat option"
  numChannels :: "nat option"
  sampleRate :: "nat option"
  bitsPerSample :: "nat option"

record wav_vars = wav_format +
  dataStart :: "nat option"
  dataSize :: "nat option"

record wav_info = wav_format +
  data :: buffer

definition wav_vars0 :: wav_vars where
  "wav_vars0 = \<lparr>audioFormat = None, numChannels = None, sampleRate = None,
                 bitsPerSample = None, dataStart = None, dataSize = None\<rparr>"

text \<open>The body of the \<open>fmt\<close> branch: four reads, each of which may throw.\<close>

definition readFmt :: "buffer \<Rightarrow> nat \<Rightarrow> wav_vars \<Rightarrow> js_error + wav_vars" where
  "readFmt wavBuf chunkStart st =
     (case readUInt16LE wavBuf (chunkStart + 0) of Inl e \<Rightarrow> Inl e | Inr af \<Rightarrow>
      case readUInt16LE wavBuf (chunkStart + 2) of Inl e \<Rightarrow> Inl e | Inr nc \<Rightarrow>
      case readUInt32LE wavBuf (chunkStart + 4) of Inl e \<Rightarrow> Inl e | Inr sr \<Rightarrow>
      case readUInt16LE wavBuf (chunkStart + 14) of Inl e \<Rightarrow> Inl e | Inr bps \<Rightarrow>
        Inr (st\<lparr>audioFormat := Some af, numChannels := Some nc,
                sampleRate := Some sr, bitsPerSample := Some bps\<rparr>))"

definition readChunk :: "buffer \<Rightarrow> buffer \<Rightarrow> nat \<Rightarrow> nat \<Rightarrow> wav_vars \<Rightarrow> js_error + wav_vars" where
  "readChunk wavBuf chunkId chunkSize chunkStart st =
     (if chunkId = ascii ''fmt '' then readFmt wavBuf chunkStart st
      else if chunkId = ascii ''data''
      then Inr (st\<lparr>dataStart := Some chunkStart, dataSize := Some chunkSize\<rparr>)
      else Inr st)"

text \<open>The \<open>while (pos + 8 <= wavBuf.length)\<close> loop of \<open>parseWavAndExtractData\<close>.\<close>

function wavLoop :: "buffer \<Rightarrow> nat \<Rightarrow> wav_vars \<Rightarrow> js_error + wav_vars" where
  "wavLoop wavBuf pos st =
     (if pos + 8 \<le> length wavBuf then
        (case readUInt32LE wavBuf (pos + 4) of
           Inl e \<Rightarrow> Inl e
         | Inr chunkSize \<Rightarrow>
            (case readChunk wavBuf (subarray wavBuf pos (pos + 4)) chunkSize (pos + 8) st of
               Inl e \<Rightarrow> Inl e
             | Inr st' \<Rightarrow>
                 if dataStart st' \<noteq> None \<and> audioFormat st' \<noteq> None then Inr st'
                 else wavLoop wavBuf (pos + 8 + chunkSize + chunkSize mod 2) st'))
      else Inr st)"
  by pat_completeness auto
termination
  by (relation "measure (\<lambda>(wavBuf, pos, st). length wavBuf - pos)") auto

declare wavLoop.simps [simp del]

definition parseWavAndExtractData :: "buffer \<Rightarrow> js_error + wav_info" where
  "parseWavAndExtractData wavBuf =
     (if subarray wavBuf 0 4 \<noteq> ascii ''RIFF'' \<or> subarray wavBuf 8 12 \<noteq> ascii ''WAVE''
      then Inl (Error ''Not a WAV container'')
      else
        (case wavLoop wavBuf 12 wav_vars0 of
           Inl e \<Rightarrow> Inl e
         | Inr st \<Rightarrow>
            (case dataStart st of
               None \<Rightarrow> Inl (Error ''WAV has no data chunk'')
             | Some ds \<Rightarrow>
                (case dataSize st of
                   None \<Rightarrow> Inl (Error ''WAV has no data chunk'')
                 | Some dz \<Rightarrow>
                     Inr \<lparr>audioFormat = audioFormat st, numChannels = numChannels st,
                          sampleRate = sampleRate st, bitsPerSample = bitsPerSample st,
                          data = subarray wavBuf ds (ds + dz)\<rparr>))))"

text \<open>The result object \<open>{ ok, b64, note }\<close> or \<open>{ ok: false, reason }\<close>. The reasons are the
  strings \<open>"empty"\<close>, \<open>"wav-not-ulaw(fmt=N)"\<close>, \<open>"mp3-container"\<close> and \<open>"ogg-container"\<close>; the
  notes are \<open>"stripped-wav"\<close> and \<open>"raw"\<close>.\<close>

datatype reason = Empty | WavNotUlaw "nat option" | Mp3Container | OggContainer

datatype ensure_note = StrippedWav | Raw

datatype ensured = Ok jsval ensure_note | NotOk reason

definition ensureRawUlawBase64 :: "buffer_api \<Rightarrow> jsval \<Rightarrow> js_error + ensured" where
  "ensureRawUlawBase64 B inB64 =
     (if \<not> truthy inB64 then Inr (NotOk Empty)
      else
        (case from_base64 B inB64 of
           Inl e \<Rightarrow> Inl e
         | Inr buf \<Rightarrow>
            if length buf \<ge> 12 \<and> subarray buf 0 4 = ascii ''RIFF''
                \<and> subarray buf 8 12 = ascii ''WAVE''
            then
              (case parseWavAndExtractData buf of
                 Inl e \<Rightarrow> Inl e
               | Inr info \<Rightarrow>
                   if audioFormat info \<noteq> Some 7
                   then Inr (NotOk (WavNotUlaw (audioFormat info)))
                   else Inr (Ok (JStr (to_base64 B (data info))) StrippedWav))
            else if length buf \<ge> 3
                \<and> (subarray buf 0 3 = ascii ''ID3''
                     \<or> (buf ! 0 = 0xFF \<and> (buf ! 1) AND 0xE0 = 0xE0))
            then Inr (NotOk Mp3Container)
            else if length buf \<ge> 4 \<and> subarray buf 0 4 = ascii ''OggS''
            then Inr (NotOk OggContainer)
            else Inr (Ok inB64 Raw)))"

section \<open>The relay of inbound-calls.js\<close>

subsection \<open>Session state\<close>

datatype ready_state = CONNECTING | OPEN | CLOSING | CLOSED

text \<open>Messages as handed to \<open>JSON.stringify\<close>: \<open>MediaMsg sid payload\<close> is
  \<open>{ event: "media", streamSid, media: { payload } }\<close>, \<open>ClearMsg sid\<close> is
  \<open>{ event: "clear", streamSid }\<close>; to the agent, \<open>InitiationClientData vars\<close> is
  \<open>{ type: "conversation_initiation_client_data", dynamic_variables }\<close>, \<open>UserAudioChunk p\<close>
  is \<open>{ user_audio_chunk: p }\<close> and \<open>Pong id\<close> is \<open>{ type: "pong", event_id }\<close>.\<close>

datatype twilio_out = MediaMsg jsval jsval | ClearMsg jsval

datatype el_out = InitiationClientData "(string \<times> jsval) list" | UserAudioChunk string | Pong jsval

record stats =
  twilioMediaInFrames :: nat
  forwardedToELBytes :: nat
  elAudioFrames :: nat
  forwardedToTwilioBytes :: nat

text \<open>The variables one call's closure holds (inbound-calls.js:53-67, 130, 203), the
  \<open>readyState\<close> of the two sockets, and what has been sent on each socket, oldest first.
  \<open>elevenLabsWs = None\<close> is \<open>null\<close>; \<open>pacerTimer\<close> and \<open>elReadyFallbackTimer\<close> say whether the
  interval and the timeout are pending (the timeout with its delay in milliseconds).\<close>

record session =
  outQueue :: "jsval list"
  streamSid :: jsval
  elevenLabsWs :: "ready_state option"
  stats :: stats
  pacerTimer :: bool
  convoReady :: bool
  elReadyFallbackTimer :: "nat option"
  connection :: ready_state
  toTwilio :: "twilio_out list"
  toEL :: "el_out list"
  dynamicVariables :: "(string \<times> jsval) list"

definition initialSession :: "(string \<times> jsval) list \<Rightarrow> session" where
  "initialSession vars =
     \<lparr>outQueue = [], streamSid = JNull, elevenLabsWs = Some CONNECTING,
      stats = \<lparr>twilioMediaInFrames = 0, forwardedToELBytes = 0, elAudioFrames = 0,
               forwardedToTwilioBytes = 0\<rparr>,
      pacerTimer = False, convoReady = False, elReadyFallbackTimer = Some 1500,
      connection = OPEN, toTwilio = [], toEL = [], dynamicVariables = vars\<rparr>"

text \<open>\<open>socket.send\<close> of the \<open>ws\<close> library: the message goes out when the socket is open; a
  socket still connecting throws; a closing or closed socket drops the message.\<close>

definition sendTwilio :: "twilio_out \<Rightarrow> session \<Rightarrow> session outcome" where
  "sendTwilio m s =
     (case connection s of
        OPEN \<Rightarrow> Returned (s\<lparr>toTwilio := toTwilio s @ [m]\<rparr>)
      | CONNECTING \<Rightarrow> Threw (Error ''WebSocket is not open: readyState 0 (CONNECTING)'') s
      | CLOSING \<Rightarrow> Returned s
      | CLOSED \<Rightarrow> Returned s)"

definition sendEL :: "el_out \<Rightarrow> session \<Rightarrow> session outcome" where
  "sendEL m s =
     (case elevenLabsWs s of
        None \<Rightarrow> Threw TypeError s
      | Some OPEN \<Rightarrow> Returned (s\<lparr>toEL := toEL s @ [m]\<rparr>)
      | Some CONNECTING \<Rightarrow> Threw (Error ''WebSocket is not open: readyState 0 (CONNECTING)'') s
      | Some CLOSING \<Rightarrow> Returned s
      | Some CLOSED \<Rightarrow> Returned s)"

text \<open>\<open>if (elevenLabsWs) elevenLabsWs.close()\<close>.\<close>

definition closeEL :: "session \<Rightarrow> session" where
  "closeEL s =
     (case elevenLabsWs s of
        None \<Rightarrow> s
      | Some CLOSED \<Rightarrow> s
      | Some rs \<Rightarrow> s\<lparr>elevenLabsWs := Some CLOSING\<rparr>)"

subsection \<open>Outbound pacer (inbound-calls.js:69-95)\<close>

definition startPacer :: "session \<Rightarrow> session" where
  "startPacer s = (if pacerTimer s then s else s\<lparr>pacerTimer := True\<rparr>)"

definition stopPacer :: "session \<Rightarrow> session" where
  "stopPacer s = (if \<not> pacerTimer s then s else s\<lparr>pacerTimer := False\<rparr>)"

text \<open>The body of the interval's callback, inside its \<open>try\<close>. \<open>outQueue.shift()\<close> on an empty
  queue gives \<open>undefined\<close> and leaves the queue empty. The log line between the shift and the
  send (inbound-calls.js:77) converts \<open>streamSid\<close> to a string.\<close>

definition pacerBody :: "buffer_api \<Rightarrow> session \<Rightarrow> session outcome" where
  "pacerBody B s =
     (if connection s \<noteq> OPEN then Returned s
      else if \<not> truthy (streamSid s) then Returned s
      else
        (case outQueue s of
           [] \<Rightarrow> Returned s
         | b64 # rest \<Rightarrow>
             if \<not> truthy b64 then Returned (s\<lparr>outQueue := rest\<rparr>)
             else
               andThen (logTemplate [streamSid s] (s\<lparr>outQueue := rest\<rparr>))
                 (\<lambda>s0. andThen (sendTwilio (MediaMsg (streamSid s0) b64) s0)
                    (\<lambda>s1. case from_base64 B b64 of
                             Inl e \<Rightarrow> Threw e s1
                           | Inr bytes \<Rightarrow>
                               Returned (s1\<lparr>stats := (stats s1)\<lparr>forwardedToTwilioBytes :=
                                 forwardedToTwilioBytes (stats s1) + length bytes\<rparr>\<rparr>)))))"

definition pacerTick :: "buffer_api \<Rightarrow> session \<Rightarrow> session" where
  "pacerTick B s = caught (pacerBody B s)"

subsection \<open>Agent audio: strip, slice, queue (inbound-calls.js:97-116)\<close>

definition stripWaveIfNeeded :: "buffer \<Rightarrow> buffer" where
  "stripWaveIfNeeded buf =
     (if length buf \<ge> 12 \<and> subarray buf 0 4 = ascii ''RIFF'' then
        (case indexOf buf (ascii ''data'') of
           None \<Rightarrow> buf
         | Some dataIdx \<Rightarrow>
             if dataIdx > 0 \<and> dataIdx + 8 \<le> length buf
             then subarray buf (dataIdx + 8) (length buf)
             else buf)
      else buf)"

definition enqueueELBase64 :: "buffer_api \<Rightarrow> jsval \<Rightarrow> session \<Rightarrow> session outcome" where
  "enqueueELBase64 B elBase64 s =
     (case from_base64 B elBase64 of
        Inl e \<Rightarrow> Threw e s
      | Inr buf \<Rightarrow>
          Returned (s\<lparr>outQueue := outQueue s @
            map (\<lambda>frame. JStr (to_base64 B frame)) (packetize (stripWaveIfNeeded buf) 0)\<rparr>))"

subsection \<open>Messages from the agent socket (inbound-calls.js:154-200)\<close>

definition isInitiationMetadata :: "jsval \<Rightarrow> bool" where
  "isInitiationMetadata msg =
     (field msg ''type'' = JStr ''conversation_initiation_metadata''
      \<or> field msg ''event'' = JStr ''conversation_initiation_metadata''
      \<or> truthy (field msg ''conversation_initiation_metadata'')
      \<or> truthy (field msg ''conversation_initiation_metadata_event''))"

definition extractAudio :: "jsval \<Rightarrow> jsval" where
  "extractAudio msg =
     (if field msg ''type'' = JStr ''audio'' \<and> truthy (field msg ''audio_event'')
          \<and> truthy (field (field msg ''audio_event'') ''audio_base_64'')
      then field (field msg ''audio_event'') ''audio_base_64''
      else if truthy (field msg ''agent_audio_chunk'') then field msg ''agent_audio_chunk''
      else if truthy (field msg ''audio_base64'') then field msg ''audio_base64''
      else if truthy (field msg ''audio'')
          \<and> (truthy (field (field msg ''audio'') ''chunk'')
               \<or> truthy (field (field msg ''audio'') ''base64''))
      then jsOr (field (field msg ''audio'') ''chunk'') (field (field msg ''audio'') ''base64'')
      else JNull)"

text \<open>\<open>const meta = msg.conversation_initiation_metadata ||
  msg.conversation_initiation_metadata_event || {}\<close> (inbound-calls.js:168-171).\<close>

definition initiationMeta :: "jsval \<Rightarrow> jsval" where
  "initiationMeta msg =
     jsOr (field msg ''conversation_initiation_metadata'')
       (jsOr (field msg ''conversation_initiation_metadata_event'') (JObj []))"

text \<open>The block that opens the gate (inbound-calls.js:160-179): when one of the two formats
  of \<open>meta\<close> is truthy, both are logged in one template literal before \<open>convoReady\<close> is
  set.\<close>

definition initiationMetadataBlock :: "jsval \<Rightarrow> session \<Rightarrow> session outcome" where
  "initiationMetadataBlock msg s =
     (if \<not> convoReady s \<and> isInitiationMetadata msg then
        (let meta = initiationMeta msg
         in andThen
              (if truthy (field meta ''agent_output_audio_format'')
                    \<or> truthy (field meta ''user_input_audio_format'')
               then logTemplate [field meta ''agent_output_audio_format'',
                                 field meta ''user_input_audio_format''] s
               else Returned s)
              (\<lambda>s0. Returned (s0\<lparr>convoReady := True\<rparr>)))
      else Returned s)"

text \<open>The handler's \<open>try\<close> block; the argument is what \<open>JSON.parse\<close> made of the text, \<open>None\<close>
  when it threw.\<close>

definition elevenLabsMessageBody :: "buffer_api \<Rightarrow> jsval option \<Rightarrow> session \<Rightarrow> session outcome" where
  "elevenLabsMessageBody B parsed s =
     (case parsed of
        None \<Rightarrow> Threw SyntaxError s
      | Some msg \<Rightarrow>
         (case getProp msg ''type'' of
            Inl e \<Rightarrow> Threw e s
          | Inr t \<Rightarrow>
             andThen (initiationMetadataBlock msg s)
               (\<lambda>s1. let b64 = extractAudio msg
                     in if truthy b64
                        then enqueueELBase64 B b64
                               (s1\<lparr>stats := (stats s1)\<lparr>elAudioFrames :=
                                  elAudioFrames (stats s1) + 1\<rparr>\<rparr>)
                        else Returned s1)))"

definition elevenLabsOnMessage :: "buffer_api \<Rightarrow> jsval option \<Rightarrow> session \<Rightarrow> session" where
  "elevenLabsOnMessage B parsed s = caught (elevenLabsMessageBody B parsed s)"

text \<open>\<open>handleElevenLabsMessage\<close> (inbound-calls.js:223-280). Nothing in inbound-calls.js
  calls it: the handler above is the only one registered for the agent's messages.\<close>

definition handleElevenLabsMessage :: "buffer_api \<Rightarrow> jsval \<Rightarrow> session \<Rightarrow> session outcome" where
  "handleElevenLabsMessage B message s =
     (case getProp message ''type'' of
        Inl e \<Rightarrow> Threw e s
      | Inr t \<Rightarrow>
          if t = JStr ''conversation_initiation_metadata'' then
            (let meta = jsOr (field message ''conversation_initiation_metadata_event'') (JObj [])
             in andThen (logTemplate [field meta ''agent_output_audio_format'',
                                      field meta ''user_input_audio_format''] s)
                  (\<lambda>s0. Returned (s0\<lparr>convoReady := True\<rparr>)))
          else if t = JStr ''audio'' then
            (let b64 = field (field message ''audio_event'') ''audio_base_64''
             in if \<not> truthy b64 then Returned s
                else
                  (let s1 = s\<lparr>stats := (stats s)\<lparr>elAudioFrames := elAudioFrames (stats s) + 1\<rparr>\<rparr>
                   in case from_base64 B b64 of
                        Inl e \<Rightarrow> Threw e s1
                      | Inr bytes \<Rightarrow>
                         (let s2 = s1\<lparr>stats := (stats s1)\<lparr>forwardedToTwilioBytes :=
                                     forwardedToTwilioBytes (stats s1) + length bytes\<rparr>\<rparr>
                          in if \<not> truthy (streamSid s2)
                             then Returned (s2\<lparr>outQueue := outQueue s2 @ [b64]\<rparr>)
                             else sendTwilio (MediaMsg (streamSid s2) b64) s2)))
          else if t = JStr ''interruption'' then sendTwilio (ClearMsg (streamSid s)) s
          else if t = JStr ''ping'' then
            (let eid = field (field message ''ping_event'') ''event_id''
             in if truthy eid then sendEL (Pong eid) s else Returned s)
          else Returned s)"

subsection \<open>Messages from the telephony socket (inbound-calls.js:283-327)\<close>

text \<open>The two \<open>if\<close> blocks of the \<open>media\<close> case, one after the other.\<close>

definition forwardMedia1 :: "buffer_api \<Rightarrow> jsval \<Rightarrow> session \<Rightarrow> session outcome" where
  "forwardMedia1 B parsed s =
     (if convoReady s \<and> elevenLabsWs s = Some OPEN then
        (case getProp (field parsed ''media'') ''payload'' of
           Inl e \<Rightarrow> Threw e s
         | Inr p \<Rightarrow>
            (case from_base64 B p of
               Inl e \<Rightarrow> Threw e s
             | Inr buf \<Rightarrow> sendEL (UserAudioChunk (to_base64 B buf)) s))
      else Returned s)"

definition forwardMedia2 :: "buffer_api \<Rightarrow> jsval \<Rightarrow> session \<Rightarrow> session outcome" where
  "forwardMedia2 B parsed s =
     (if convoReady s \<and> elevenLabsWs s = Some OPEN then
        (let s1 = s\<lparr>stats := (stats s)\<lparr>twilioMediaInFrames := twilioMediaInFrames (stats s) + 1\<rparr>\<rparr>
         in case getProp (field parsed ''media'') ''payload'' of
              Inl e \<Rightarrow> Threw e s1
            | Inr p \<Rightarrow>
               (case from_base64 B p of
                  Inl e \<Rightarrow> Threw e s1
                | Inr buf \<Rightarrow>
                    sendEL (UserAudioChunk (to_base64 B buf))
                      (s1\<lparr>stats := (stats s1)\<lparr>forwardedToELBytes :=
                             forwardedToELBytes (stats s1) + length buf\<rparr>\<rparr>)))
      else Returned s)"

text \<open>The handler's \<open>try\<close> block. The \<open>start\<close> case logs \<open>streamSid\<close> and three fields of
  \<open>fmt = data.start.mediaFormat || {}\<close> between the assignment of \<open>streamSid\<close> and
  \<open>startPacer()\<close>; the \<open>stop\<close> case logs \<open>data.streamSid\<close> after \<open>stopPacer()\<close>; the default
  case logs \<open>data.event\<close>.\<close>

definition twilioMessageBody :: "buffer_api \<Rightarrow> jsval option \<Rightarrow> session \<Rightarrow> session outcome" where
  "twilioMessageBody B message s =
     (case message of
        None \<Rightarrow> Threw SyntaxError s
      | Some parsed \<Rightarrow>
         (case getProp parsed ''event'' of
            Inl e \<Rightarrow> Threw e s
          | Inr ev \<Rightarrow>
              if ev = JStr ''start'' then
                (case getProp (field parsed ''start'') ''streamSid'' of
                   Inl e \<Rightarrow> Threw e s
                 | Inr sid \<Rightarrow>
                    (let fmt = jsOr (field (field parsed ''start'') ''mediaFormat'') (JObj [])
                     in andThen
                          (logTemplate [sid, field fmt ''encoding'', field fmt ''sampleRate'',
                                        field fmt ''channels''] (s\<lparr>streamSid := sid\<rparr>))
                          (\<lambda>s1. Returned (startPacer s1))))
              else if ev = JStr ''media'' then
                andThen (forwardMedia1 B parsed s) (forwardMedia2 B parsed)
              else if ev = JStr ''stop'' then
                logTemplate [field parsed ''streamSid''] (stopPacer s)
              else logTemplate [ev] s))"

definition twilioOnMessage :: "buffer_api \<Rightarrow> jsval option \<Rightarrow> session \<Rightarrow> session" where
  "twilioOnMessage B message s = caught (twilioMessageBody B message s)"

text \<open>The \<open>stop\<close> case of the second unnamed file (part_000:559-565), which closes the agent
  socket before it stops the pacer.\<close>

definition twilioStop_v2 :: "session \<Rightarrow> session" where
  "twilioStop_v2 s = stopPacer (closeEL s)"

subsection \<open>The callbacks of one call as a transition system\<close>

text \<open>One event per registered callback. A timer's callback runs only while the timer is
  pending; the \<open>open\<close> and \<open>close\<close> events of a socket come with its new \<open>readyState\<close>.\<close>

datatype event =
    TwilioMessage "jsval option"
  | TwilioClose
  | TwilioError
  | ELOpen
  | ELMessage "jsval option"
  | ELError
  | ELClose
  | PacerInterval
  | FallbackTimeout

definition fallbackTimeout :: "session \<Rightarrow> session" where
  "fallbackTimeout s =
     (case elReadyFallbackTimer s of
        None \<Rightarrow> s
      | Some ms \<Rightarrow>
          (if \<not> convoReady s then s\<lparr>convoReady := True\<rparr> else s)\<lparr>elReadyFallbackTimer := None\<rparr>)"

fun step :: "buffer_api \<Rightarrow> event \<Rightarrow> session \<Rightarrow> session" where
  "step B (TwilioMessage m) s = twilioOnMessage B m s"
| "step B TwilioClose s = stopPacer (s\<lparr>connection := CLOSED\<rparr>)"
| "step B TwilioError s = closeEL s"
| "step B ELOpen s =
     caught (sendEL (InitiationClientData (dynamicVariables s)) (s\<lparr>elevenLabsWs := Some OPEN\<rparr>))"
| "step B (ELMessage m) s = elevenLabsOnMessage B m s"
| "step B ELError s = s\<lparr>elReadyFallbackTimer := None\<rparr>"
| "step B ELClose s = s\<lparr>elReadyFallbackTimer := None, elevenLabsWs := Some CLOSED\<rparr>"
| "step B PacerInterval s = (if pacerTimer s then pacerTick B s else s)"
| "step B FallbackTimeout s = fallbackTimeout s"

definition run :: "buffer_api \<Rightarrow> event list \<Rightarrow> session \<Rightarrow> session" where
  "run B es s = fold (step B) es s"

section \<open>A base64 codec for closed examples\<close>

text \<open>Standard base64 with padding, as \<open>toString("base64")\<close> writes it. The decoder reads the
  text up to the first \<open>=\<close> and skips characters outside the alphabet; on the canonical
  texts used below it is the inverse of the encoder.\<close>

definition b64chars :: string where
  "b64chars = ''ABCDEFGHIJKLMNOPQRSTUVWXYZabcdefghijklmnopqrstuvwxyz0123456789+/''"

definition b64char :: "nat \<Rightarrow> char" where
  "b64char n = b64chars ! n"

definition b64index :: "char \<Rightarrow> nat option" where
  "b64index c =
     (let n = (of_char c :: nat)
      in if 65 \<le> n \<and> n \<le> 90 then Some (n - 65)
         else if 97 \<le> n \<and> n \<le> 122 then Some (n - 71)
         else if 48 \<le> n \<and> n \<le> 57 then Some (n + 4)
         else if n = 43 \<or> n = 45 then Some 62
         else if n = 47 \<or> n = 95 then Some 63
         else None)"

fun base64_encode :: "buffer \<Rightarrow> string" where
  "base64_encode [] = []"
| "base64_encode [a] =
     [b64char (unat a div 4), b64char (unat a mod 4 * 16), CHR ''='', CHR ''='']"
| "base64_encode [a, b] =
     [b64char (unat a div 4), b64char (unat a mod 4 * 16 + unat b div 16),
      b64char (unat b mod 16 * 4), CHR ''='']"
| "base64_encode (a # b # c # rest) =
     [b64char (unat a div 4), b64char (unat a mod 4 * 16 + unat b div 16),
      b64char (unat b mod 16 * 4 + unat c div 64), b64char (unat c mod 64)]
     @ base64_encode rest"

fun sextetsToBytes :: "nat list \<Rightarrow> buffer" where
  "sextetsToBytes (a # b # c # d # rest) =
     [of_nat (a * 4 + b div 16), of_nat (b mod 16 * 16 + c div 4), of_nat (c mod 4 * 64 + d)]
     @ sextetsToBytes rest"
| "sextetsToBytes [a, b, c] = [of_nat (a * 4 + b div 16), of_nat (b mod 16 * 16 + c div 4)]"
| "sextetsToBytes [a, b] = [of_nat (a * 4 + b div 16)]"
| "sextetsToBytes xs = []"

definition base64_decode :: "string \<Rightarrow> buffer" where
  "base64_decode s = sextetsToBytes (List.map_filter b64index (takeWhile (\<lambda>c. c \<noteq> CHR ''='') s))"

text \<open>The codec on strings. \<open>Buffer.from\<close> throws a TypeError for \<open>undefined\<close>, \<open>null\<close>, a
  number and a boolean. An array or an object it does not decode as base64 at all: it copies
  an array-like element by element and may throw on other objects; that conversion is not
  described here, its result is left unspecified, and the examples pass strings only.\<close>

definition nodeBuffer :: buffer_api where
  "nodeBuffer =
     \<lparr>from_base64 =
        (\<lambda>v. case v of
               JStr s \<Rightarrow> Inr (base64_decode s)
             | JArr xs \<Rightarrow> undefined
             | JObj kvs \<Rightarrow> undefined
             | _ \<Rightarrow> Inl TypeError),
      to_base64 = base64_encode\<rparr>"

section \<open>The RIFF/WAVE layout\<close>

text \<open>The layout the parser walks, written as a constructor of buffers so that claims
  about "a WAV buffer whose data chunk is X" can be stated: a 12-byte header (\<open>RIFF\<close>, four
  size bytes, \<open>WAVE\<close>), then chunks; a chunk is a 4-byte identifier, the size of its body
  as four little-endian bytes, the body, and one pad byte after a body of odd size.\<close>

definition le16 :: "nat \<Rightarrow> buffer" where
  "le16 n = [of_nat (n mod 256), of_nat (n div 256 mod 256)]"

definition le32 :: "nat \<Rightarrow> buffer" where
  "le32 n = [of_nat (n mod 256), of_nat (n div 256 mod 256),
             of_nat (n div 65536 mod 256), of_nat (n div 16777216 mod 256)]"

definition riffChunk :: "buffer \<Rightarrow> buffer \<Rightarrow> buffer" where
  "riffChunk cid body = cid @ le32 (length body) @ body @ (if odd (length body) then [0] else [])"

definition riffChunks :: "(buffer \<times> buffer) list \<Rightarrow> buffer" where
  "riffChunks cs = concat (map (\<lambda>c. riffChunk (fst c) (snd c)) cs)"

text \<open>A chunk that is neither the format chunk nor the data chunk.\<close>

definition otherChunk :: "buffer \<times> buffer \<Rightarrow> bool" where
  "otherChunk c =
     (length (fst c) = 4 \<and> fst c \<noteq> ascii ''fmt '' \<and> fst c \<noteq> ascii ''data''
      \<and> length (snd c) < 2 ^ 32)"

definition wavHeader :: "buffer \<Rightarrow> buffer" where
  "wavHeader sz = ascii ''RIFF'' @ sz @ ascii ''WAVE''"

text \<open>A WAV buffer: header, chunks \<open>pre\<close>, the format chunk with body \<open>fmtBody\<close>, chunks
  \<open>mid\<close>, the data chunk with body \<open>X\<close>, and whatever follows it (\<open>rest\<close>).\<close>

definition wavFile ::
  "buffer \<Rightarrow> (buffer \<times> buffer) list \<Rightarrow> buffer \<Rightarrow> (buffer \<times> buffer) list \<Rightarrow> buffer \<Rightarrow> buffer \<Rightarrow> buffer" where
  "wavFile sz pre fmtBody mid X rest =
     wavHeader sz @ riffChunks pre @ riffChunk (ascii ''fmt '') fmtBody @ riffChunks mid
       @ ascii ''data'' @ le32 (length X) @ X @ rest"

text \<open>The usual 16-byte format chunk body: encoding tag, channels, sample rate, byte rate,
  block alignment, bits per sample.\<close>

definition fmtBody16 :: "nat \<Rightarrow> nat \<Rightarrow> nat \<Rightarrow> nat \<Rightarrow> buffer" where
  "fmtBody16 tag channels rate bits =
     le16 tag @ le16 channels @ le32 rate @ le32 (rate * channels * bits div 8)
       @ le16 (channels * bits div 8) @ le16 bits"

section \<open>Closed examples\<close>

text \<open>A call after the telephony \<open>start\<close> event for stream \<open>CA123\<close>, with three frames queued.\<close>

definition startedSession :: session where
  "startedSession =
     (initialSession [])\<lparr>streamSid := JStr ''CA123'', pacerTimer := True,
        outQueue := [JStr ''QUFB'', JStr ''QkJC'', JStr ''Q0ND'']\<rparr>"

text \<open>The same call once the agent socket is open and the gate has opened.\<close>

definition readySession :: session where
  "readySession = startedSession\<lparr>elevenLabsWs := Some OPEN, convoReady := True\<rparr>"

definition mediaEvent :: jsval where
  "mediaEvent = JObj [(''event'', JStr ''media''), (''streamSid'', JStr ''CA123''),
                      (''media'', JObj [(''payload'', JStr ''/38='')])]"

definition startEvent :: jsval where
  "startEvent = JObj [(''event'', JStr ''start''),
                      (''start'', JObj [(''streamSid'', JStr ''CA123'')])]"

definition stopEvent :: jsval where
  "stopEvent = JObj [(''event'', JStr ''stop''), (''streamSid'', JStr ''CA123'')]"

definition interruptionMessage :: jsval where
  "interruptionMessage = JObj [(''type'', JStr ''interruption'')]"

section \<open>Properties of the frame packetizer\<close>


lemma packetize_concat: "concat (packetize buf i) = drop i buf"
proof (induction buf i rule: packetize.induct)
  case (1 buf i)
  show ?case
  proof (cases "i < length buf")
    case True
    have a: "subarray buf i (min (i + FRAME_BYTES) (length buf)) = take FRAME_BYTES (drop i buf)"
      using True by (auto simp: subarray_def min_def)
    have b: "concat (packetize buf (i + FRAME_BYTES)) = drop FRAME_BYTES (drop i buf)"
      using True 1 by (simp add: add.commute)
    have "concat (packetize buf i) = take FRAME_BYTES (drop i buf) @ drop FRAME_BYTES (drop i buf)"
      using True by (subst packetize.simps) (simp only: a b if_True concat.simps)
    then show ?thesis by (simp only: append_take_drop_id)
  next
    case False
    then show ?thesis by (subst packetize.simps) simp
  qed
qed

lemma packetize_length: "length (packetize buf i) = (length buf - i + 159) div 160"
proof (induction buf i rule: packetize.induct)
  case (1 buf i)
  show ?case
  proof (cases "i < length buf")
    case True
    then have "length (packetize buf i) = Suc ((length buf - (i + 160) + 159) div 160)"
      using 1 by (subst packetize.simps) (simp add: FRAME_BYTES_def)
    also have "\<dots> = (length buf - i + 159) div 160"
      using True by (cases "i + 160 \<le> length buf") (auto simp: div_eq_0_iff le_div_geq)
    finally show ?thesis .
  next
    case False
    then show ?thesis by (subst packetize.simps) simp
  qed
qed

lemma packetize_Nil_iff: "packetize buf i = [] \<longleftrightarrow> length buf \<le> i"
  by (subst packetize.simps) auto

lemma packetize_frame_bounds:
  "f \<in> set (packetize buf i) \<Longrightarrow> 0 < length f \<and> length f \<le> FRAME_BYTES"
proof (induction buf i rule: packetize.induct)
  case (1 buf i)
  show ?case
  proof (cases "i < length buf")
    case True
    from "1.prems" True
    have "f = subarray buf i (min (i + FRAME_BYTES) (length buf)) \<or> f \<in> set (packetize buf (i + FRAME_BYTES))"
      by (subst (asm) packetize.simps) simp
    then show ?thesis
    proof
      assume "f = subarray buf i (min (i + FRAME_BYTES) (length buf))"
      then show ?thesis using True by (auto simp: subarray_def FRAME_BYTES_def min_def)
    next
      assume "f \<in> set (packetize buf (i + FRAME_BYTES))"
      then show ?thesis using 1 True by simp
    qed
  next
    case False
    with "1.prems" show ?thesis by (subst (asm) packetize.simps) simp
  qed
qed

lemma packetize_full_frames:
  "Suc k < length (packetize buf i) \<Longrightarrow> length (packetize buf i ! k) = FRAME_BYTES"
proof (induction buf i arbitrary: k rule: packetize.induct)
  case (1 buf i)
  show ?case
  proof (cases "i < length buf")
    case True
    have unfold: "packetize buf i =
        subarray buf i (min (i + FRAME_BYTES) (length buf)) # packetize buf (i + FRAME_BYTES)"
      using True by (subst packetize.simps) simp
    show ?thesis
    proof (cases k)
      case 0
      from "1.prems" unfold have "packetize buf (i + FRAME_BYTES) \<noteq> []" by auto
      then have "i + FRAME_BYTES < length buf" by (simp add: packetize_Nil_iff)
      then show ?thesis using 0 unfold by (simp add: subarray_def)
    next
      case (Suc j)
      from "1.prems" unfold Suc have "Suc j < length (packetize buf (i + FRAME_BYTES))" by simp
      then have "length (packetize buf (i + FRAME_BYTES) ! j) = FRAME_BYTES"
        using 1 True by simp
      then show ?thesis using Suc unfold by simp
    qed
  next
    case False
    with "1.prems" show ?thesis by (simp add: packetize_Nil_iff[THEN iffD2])
  qed
qed

lemma ceil_div: "\<lceil>real n / real FRAME_BYTES\<rceil> = int ((n + 159) div 160)"
proof -
  have "\<lceil>real n / real FRAME_BYTES\<rceil> = \<lceil>(of_int (int n) :: real) / of_int (160::int)\<rceil>"
    by (simp add: FRAME_BYTES_def)
  also have "\<dots> = - (- int n div 160)"
    by (rule ceiling_divide_eq_div)
  also have "\<dots> = (int n + 159) div 160" by linarith
  also have "\<dots> = int ((n + 159) div 160)" by (simp add: zdiv_int)
  finally show ?thesis .
qed

text \<open>
  Claim C2. Slicing a buffer of length \<open>L\<close> into frames of \<open>FRAME_BYTES = 160\<close> bytes gives
  \<open>\<lceil>L / 160\<rceil>\<close> frames; the frames concatenated in order are the buffer; every frame
  before the last has 160 bytes, and no frame is empty or longer than 160 bytes, so only
  the last can be shorter.
\<close>

theorem packetize_frames:
  "int (length (packetize buf 0)) = \<lceil>real (length buf) / real FRAME_BYTES\<rceil>
   \<and> concat (packetize buf 0) = buf
   \<and> (\<forall>k. Suc k < length (packetize buf 0) \<longrightarrow> length (packetize buf 0 ! k) = FRAME_BYTES)
   \<and> (\<forall>f \<in> set (packetize buf 0). 0 < length f \<and> length f \<le> FRAME_BYTES)"
  using packetize_frame_bounds [of _ buf 0] packetize_full_frames [of _ buf 0]
  by (simp add: ceil_div packetize_length packetize_concat)

text \<open>A buffer of 400 bytes gives frames of 160, 160 and 80 bytes.\<close>

theorem packetize_frames_witness:
  "length (packetize (replicate 400 (7::byte)) 0) = 3
   \<and> concat (packetize (replicate 400 (7::byte)) 0) = replicate 400 7
   \<and> length (packetize (replicate 400 (7::byte)) 0 ! 0) = 160
   \<and> length (packetize (replicate 400 (7::byte)) 0 ! 1) = 160
   \<and> 0 < length (packetize (replicate 400 (7::byte)) 0 ! 2)
   \<and> length (packetize (replicate 400 (7::byte)) 0 ! 2) \<le> 160
   \<and> map length (packetize (replicate 400 (7::byte)) 0) = [160, 160, 80]"
proof -
  let ?fs = "packetize (replicate 400 (7::byte)) 0"
  note t = packetize_frames [of "replicate 400 (7::byte)"]
  have "\<lceil>real (400::nat) / real FRAME_BYTES\<rceil> = 3"
    by (simp only: ceil_div)
  with t have len: "length ?fs = 3" by simp
  from t have cat: "concat ?fs = replicate 400 7" by simp
  from t len have full: "length (?fs ! 0) = 160" "length (?fs ! 1) = 160"
    by (simp_all add: FRAME_BYTES_def)
  from len have "?fs ! 2 \<in> set ?fs" by simp
  with t have last: "0 < length (?fs ! 2)" "length (?fs ! 2) \<le> 160"
    by (auto simp: FRAME_BYTES_def)
  have run: "map length ?fs = [160, 160, 80]"
    by (simp add: packetize.simps subarray_def FRAME_BYTES_def)
  from len cat full last run show ?thesis by simp
qed

section \<open>The outbound pacer and the telephony-side handler\<close>

lemma nodeBuffer_decode_ff7f: "from_base64 nodeBuffer (JStr ''/38='') = Inr [0xFF, 0x7F]"
  by (simp add: nodeBuffer_def base64_decode_def b64index_def List.map_filter_simps)

lemma nodeBuffer_encode_ff7f: "to_base64 nodeBuffer [0xFF, 0x7F] = ''/38=''"
  by (simp add: nodeBuffer_def b64char_def b64chars_def)


lemma stringifies_JStr: "stringifies (JStr sid)"
  by simp

lemma pacerTick_send:
  assumes "connection s = OPEN" "truthy (streamSid s)" "stringifies (streamSid s)"
    "outQueue s = f # q" "truthy f"
  shows "pacerTick B s =
           s\<lparr>outQueue := q, toTwilio := toTwilio s @ [MediaMsg (streamSid s) f],
             stats := stats (pacerTick B s)\<rparr>"
  using assms
  by (cases "from_base64 B f")
     (simp_all add: pacerTick_def pacerBody_def sendTwilio_def logTemplate_def)



text \<open>When the conversion of \<open>streamSid\<close> throws in the log line, the frame has left the queue
  and is not sent; the \<open>catch\<close> of the callback takes the exception.\<close>

lemma pacerTick_log_throws:
  assumes "connection s = OPEN" "truthy (streamSid s)" "\<not> stringifies (streamSid s)"
    "outQueue s = f # q" "truthy f"
  shows "pacerBody B s = Threw TypeError (s\<lparr>outQueue := q\<rparr>)"
    and "pacerTick B s = s\<lparr>outQueue := q\<rparr>"
  using assms by (simp_all add: pacerTick_def pacerBody_def logTemplate_def)



text \<open>
  Claim C4. A telephony \<open>media\<close> event that arrives while \<open>convoReady\<close> is false leaves
  the state of the call exactly as it was: nothing is sent to the agent socket, nothing is
  queued or kept for later.
\<close>

theorem media_before_ready_dropped:
  assumes "\<not> convoReady s" "getProp msg ''event'' = Inr (JStr ''media'')"
  shows "twilioMessageBody B (Some msg) s = Returned s
       \<and> step B (TwilioMessage (Some msg)) s = s"
  using assms
  by (simp add: twilioOnMessage_def twilioMessageBody_def forwardMedia1_def forwardMedia2_def)

text \<open>A \<open>media\<close> event on a call whose gate is still closed.\<close>

theorem media_before_ready_dropped_witness:
  "\<not> convoReady startedSession
   \<and> getProp mediaEvent ''event'' = Inr (JStr ''media'')
   \<and> step nodeBuffer (TwilioMessage (Some mediaEvent)) startedSession = startedSession
   \<and> toEL (step nodeBuffer (TwilioMessage (Some mediaEvent)) startedSession) = []"
proof -
  have a: "\<not> convoReady startedSession"
    by (simp add: startedSession_def initialSession_def)
  have b: "getProp mediaEvent ''event'' = Inr (JStr ''media'')"
    by (simp add: mediaEvent_def)
  have c: "toEL startedSession = []"
    by (simp add: startedSession_def initialSession_def)
  from media_before_ready_dropped [OF a b, of nodeBuffer] a b c show ?thesis by simp
qed

lemma media_two_or_none:
  assumes "convoReady s" "elevenLabsWs s = Some OPEN"
    "getProp msg ''event'' = Inr (JStr ''media'')"
  shows "toEL (step B (TwilioMessage (Some msg)) s) = toEL s
       \<or> (\<exists>c. toEL (step B (TwilioMessage (Some msg)) s)
                 = toEL s @ [UserAudioChunk c, UserAudioChunk c])"
proof (cases "getProp (field msg ''media'') ''payload''")
  case (Inl e)
  with assms show ?thesis
    by (simp add: twilioOnMessage_def twilioMessageBody_def forwardMedia1_def)
next
  case (Inr p)
  show ?thesis
  proof (cases "from_base64 B p")
    case (Inl e)
    with assms Inr show ?thesis
      by (simp add: twilioOnMessage_def twilioMessageBody_def forwardMedia1_def)
  next
    case (Inr buf)
    with assms \<open>getProp (field msg ''media'') ''payload'' = Inr p\<close> show ?thesis
      by (simp add: twilioOnMessage_def twilioMessageBody_def forwardMedia1_def
          forwardMedia2_def sendEL_def)
  qed
qed

text \<open>
  Claim C9. A telephony \<open>media\<close> event that arrives while \<open>convoReady\<close> is true and
  the agent socket is open sends \<open>{ user_audio_chunk }\<close> to the agent twice, both with
  the same payload (the re-encoded bytes of \<open>media.payload\<close>). An event with no payload
  to decode throws before the first send; in no case is the message sent exactly once.
\<close>

theorem media_forwarded_twice:
  assumes "convoReady s" "elevenLabsWs s = Some OPEN"
    "getProp msg ''event'' = Inr (JStr ''media'')"
  shows "(\<forall>p buf. getProp (field msg ''media'') ''payload'' = Inr p \<and> from_base64 B p = Inr buf \<longrightarrow>
            twilioMessageBody B (Some msg) s =
              Returned (s\<lparr>toEL := toEL s @ [UserAudioChunk (to_base64 B buf),
                                             UserAudioChunk (to_base64 B buf)],
                 stats := (stats s)\<lparr>twilioMediaInFrames := twilioMediaInFrames (stats s) + 1,
                    forwardedToELBytes := forwardedToELBytes (stats s) + length buf\<rparr>\<rparr>)
            \<and> toEL (step B (TwilioMessage (Some msg)) s) =
                toEL s @ [UserAudioChunk (to_base64 B buf), UserAudioChunk (to_base64 B buf)])
       \<and> (toEL (step B (TwilioMessage (Some msg)) s) = toEL s
            \<or> (\<exists>c. toEL (step B (TwilioMessage (Some msg)) s)
                      = toEL s @ [UserAudioChunk c, UserAudioChunk c]))"
  using assms media_two_or_none [OF assms, of B]
  by (simp add: twilioOnMessage_def twilioMessageBody_def forwardMedia1_def forwardMedia2_def
      sendEL_def)

text \<open>A \<open>media\<close> event with payload \<open>/38=\<close> (bytes FF 7F) on a ready call.\<close>

theorem media_forwarded_twice_witness:
  "convoReady readySession \<and> elevenLabsWs readySession = Some OPEN
   \<and> getProp mediaEvent ''event'' = Inr (JStr ''media'')
   \<and> getProp (field mediaEvent ''media'') ''payload'' = Inr (JStr ''/38='')
   \<and> from_base64 nodeBuffer (JStr ''/38='') = Inr [0xFF, 0x7F]
   \<and> toEL (step nodeBuffer (TwilioMessage (Some mediaEvent)) readySession)
       = [UserAudioChunk ''/38='', UserAudioChunk ''/38='']"
proof -
  have a: "convoReady readySession" "elevenLabsWs readySession = Some OPEN"
    "toEL readySession = []"
    by (simp_all add: readySession_def startedSession_def initialSession_def)
  have b: "getProp mediaEvent ''event'' = Inr (JStr ''media'')"
    "getProp (field mediaEvent ''media'') ''payload'' = Inr (JStr ''/38='')"
    by (simp_all add: mediaEvent_def field_def)
  from media_forwarded_twice [OF a(1,2) b(1), of nodeBuffer] b(2) nodeBuffer_decode_ff7f
  have "toEL (step nodeBuffer (TwilioMessage (Some mediaEvent)) readySession)
       = toEL readySession @ [UserAudioChunk (to_base64 nodeBuffer [0xFF, 0x7F]),
                              UserAudioChunk (to_base64 nodeBuffer [0xFF, 0x7F])]"
    by blast
  then have "toEL (step nodeBuffer (TwilioMessage (Some mediaEvent)) readySession)
       = [UserAudioChunk ''/38='', UserAudioChunk ''/38='']"
    by (simp add: a nodeBuffer_encode_ff7f)
  with a b nodeBuffer_decode_ff7f show ?thesis by simp
qed

lemma run_pacer_stopped:
  "\<not> pacerTimer s \<Longrightarrow> run B (replicate n PacerInterval) s = s"
  by (induction n) (simp_all add: run_def)

text \<open>
  Claim C8. The telephony \<open>stop\<close> event of inbound-calls.js clears the pacer's interval
  and changes nothing else: both sockets keep their state, nothing is sent, and pacer
  ticks after it do nothing.
\<close>

theorem stop_only_stops_pacer:
  assumes "getProp msg ''event'' = Inr (JStr ''stop'')"
  shows "step B (TwilioMessage (Some msg)) s = s\<lparr>pacerTimer := False\<rparr>
       \<and> connection (step B (TwilioMessage (Some msg)) s) = connection s
       \<and> elevenLabsWs (step B (TwilioMessage (Some msg)) s) = elevenLabsWs s
       \<and> toTwilio (step B (TwilioMessage (Some msg)) s) = toTwilio s
       \<and> toEL (step B (TwilioMessage (Some msg)) s) = toEL s
       \<and> (\<forall>n. run B (replicate n PacerInterval) (step B (TwilioMessage (Some msg)) s)
               = step B (TwilioMessage (Some msg)) s)"
proof -
  have a: "step B (TwilioMessage (Some msg)) s = s\<lparr>pacerTimer := False\<rparr>"
    using assms
    by (simp add: twilioOnMessage_def twilioMessageBody_def stopPacer_def logTemplate_def)
  show ?thesis unfolding a by (simp add: run_pacer_stopped)
qed

text \<open>A \<open>stop\<close> event on a ready call, followed by two ticks of the interval.\<close>

theorem stop_only_stops_pacer_witness:
  "getProp stopEvent ''event'' = Inr (JStr ''stop'')
   \<and> pacerTimer readySession
   \<and> step nodeBuffer (TwilioMessage (Some stopEvent)) readySession
       = readySession\<lparr>pacerTimer := False\<rparr>
   \<and> connection (step nodeBuffer (TwilioMessage (Some stopEvent)) readySession) = OPEN
   \<and> elevenLabsWs (step nodeBuffer (TwilioMessage (Some stopEvent)) readySession) = Some OPEN
   \<and> run nodeBuffer [PacerInterval, PacerInterval]
        (step nodeBuffer (TwilioMessage (Some stopEvent)) readySession)
       = readySession\<lparr>pacerTimer := False\<rparr>"
proof -
  have a: "getProp stopEvent ''event'' = Inr (JStr ''stop'')"
    by (simp add: stopEvent_def)
  have b: "pacerTimer readySession" "connection readySession = OPEN"
    "elevenLabsWs readySession = Some OPEN"
    by (simp_all add: readySession_def startedSession_def initialSession_def)
  note t = stop_only_stops_pacer [OF a, of nodeBuffer readySession]
  from t have "run nodeBuffer (replicate 2 PacerInterval)
        (step nodeBuffer (TwilioMessage (Some stopEvent)) readySession)
       = step nodeBuffer (TwilioMessage (Some stopEvent)) readySession"
    by blast
  then have "run nodeBuffer [PacerInterval, PacerInterval]
        (step nodeBuffer (TwilioMessage (Some stopEvent)) readySession)
       = step nodeBuffer (TwilioMessage (Some stopEvent)) readySession"
    by (simp add: numeral_2_eq_2)
  with t a b show ?thesis by simp
qed

lemma agent_interruption_ignored:
  "step B (ELMessage (Some (JObj [(''type'', JStr ''interruption'')]))) s = s"
  by (simp add: elevenLabsOnMessage_def elevenLabsMessageBody_def initiationMetadataBlock_def
      isInitiationMetadata_def extractAudio_def field_def)

lemma handleElevenLabsMessage_interruption:
  "getProp msg ''type'' = Inr (JStr ''interruption'') \<Longrightarrow> connection s = OPEN \<Longrightarrow>
   handleElevenLabsMessage B msg s = Returned (s\<lparr>toTwilio := toTwilio s @ [ClearMsg (streamSid s)]\<rparr>)"
  by (simp add: handleElevenLabsMessage_def sendTwilio_def)

text \<open>
  Claim C7. In a call with stream \<open>CA123\<close> and both sockets open, the handler registered
  for the agent's messages (inbound-calls.js:154-200) does nothing on an \<open>interruption\<close>
  message: the state is unchanged and nothing is sent on the telephony socket. The one
  \<open>clear\<close> message the claim expects is what \<open>handleElevenLabsMessage\<close> would send, and
  nothing calls that function.
\<close>

theorem interruption_not_dispatched:
  "streamSid readySession = JStr ''CA123''
   \<and> step nodeBuffer (ELMessage (Some interruptionMessage)) readySession = readySession
   \<and> toTwilio (step nodeBuffer (ELMessage (Some interruptionMessage)) readySession) = []
   \<and> toTwilio (caught (handleElevenLabsMessage nodeBuffer interruptionMessage readySession))
       = [ClearMsg (JStr ''CA123'')]"
proof -
  have a: "streamSid readySession = JStr ''CA123''" "toTwilio readySession = []"
    "connection readySession = OPEN"
    by (simp_all add: readySession_def startedSession_def initialSession_def)
  have b: "step nodeBuffer (ELMessage (Some interruptionMessage)) readySession = readySession"
    unfolding interruptionMessage_def by (rule agent_interruption_ignored)
  have c: "getProp interruptionMessage ''type'' = Inr (JStr ''interruption'')"
    by (simp add: interruptionMessage_def)
  from handleElevenLabsMessage_interruption [OF c a(3), of nodeBuffer] a b show ?thesis
    by simp
qed

section \<open>The readiness gate\<close>


lemma convoReady_sendTwilio: "convoReady (caught (sendTwilio m s)) = convoReady s"
  by (simp add: sendTwilio_def split: ready_state.splits)




lemma convoReady_logTemplate: "convoReady (caught (logTemplate vs s)) = convoReady s"
  by (simp add: logTemplate_def)











text \<open>When one of the two formats is truthy and the conversion of one of them throws, the
  exception leaves the block before \<open>convoReady = true\<close>: the message changes nothing.\<close>

lemma elevenLabsOnMessage_log_throws:
  assumes "getProp msg ''type'' = Inr t" "\<not> convoReady s" "isInitiationMetadata msg"
    "truthy (field (initiationMeta msg) ''agent_output_audio_format'')
       \<or> truthy (field (initiationMeta msg) ''user_input_audio_format'')"
    "\<not> (stringifies (field (initiationMeta msg) ''agent_output_audio_format'')
         \<and> stringifies (field (initiationMeta msg) ''user_input_audio_format''))"
  shows "elevenLabsMessageBody B (Some msg) s = Threw TypeError s"
    and "elevenLabsOnMessage B (Some msg) s = s"
proof -
  have "initiationMetadataBlock msg s = Threw TypeError s"
    using assms(2-5) by (simp add: initiationMetadataBlock_def logTemplate_def Let_def)
  then show "elevenLabsMessageBody B (Some msg) s = Threw TypeError s"
    using assms(1) by (simp add: elevenLabsMessageBody_def)
  then show "elevenLabsOnMessage B (Some msg) s = s"
    by (simp add: elevenLabsOnMessage_def)
qed










section \<open>The container normalizer\<close>

lemma le16_value:
  assumes "n < 65536"
  shows "n mod 256 + 256 * (n div 256 mod 256) = (n::nat)"
proof -
  from assms have "n div 256 < 256" by (simp add: less_mult_imp_div_less)
  then have "n div 256 mod 256 = n div 256" by simp
  then show ?thesis by simp
qed

lemma le32_value:
  assumes "n < 2 ^ 32"
  shows "n mod 256 + 256 * (n div 256 mod 256) + 65536 * (n div 65536 mod 256)
         + 16777216 * (n div 16777216 mod 256) = (n::nat)"
proof -
  define q1 q2 q3 where "q1 = n div 256" and "q2 = n div 65536" and "q3 = n div 16777216"
  have a: "n = n mod 256 + 256 * q1"
    by (simp add: q1_def)
  have "q1 div 256 = q2" "q2 div 256 = q3"
    by (simp_all add: q1_def q2_def q3_def div_mult2_eq [symmetric])
  then have b: "q1 = q1 mod 256 + 256 * q2" and c: "q2 = q2 mod 256 + 256 * q3"
    using mod_mult_div_eq [of q1 256] mod_mult_div_eq [of q2 256] by simp_all
  from assms have "q3 < 256"
    by (simp add: q3_def less_mult_imp_div_less)
  then have d: "q3 mod 256 = q3" by simp
  have "n mod 256 + 256 * (q1 mod 256) + 65536 * (q2 mod 256) + 16777216 * (q3 mod 256) = n"
    unfolding d using a b c by linarith
  then show ?thesis by (simp only: q1_def q2_def q3_def)
qed

lemma length_le32 [simp]: "length (le32 n) = 4"
  by (simp add: le32_def)

lemma length_le16 [simp]: "length (le16 n) = 2"
  by (simp add: le16_def)

lemma length_ascii [simp]: "length (ascii s) = length s"
  by (simp add: ascii_def)

lemma length_riffChunk:
  "length (riffChunk cid body) = length cid + 4 + length body + length body mod 2"
  by (simp add: riffChunk_def) presburger

lemma readUInt32LE_le32:
  assumes "n < 2 ^ 32" "buf = pre @ le32 n @ sfx" "pos = length pre"
  shows "readUInt32LE buf pos = Inr n"
  using assms le32_value [of n]
  by (simp add: readUInt32LE_def le32_def nth_append unat_of_nat)

lemma readUInt16LE_le16:
  assumes "n < 65536" "buf = pre @ le16 n @ sfx" "pos = length pre"
  shows "readUInt16LE buf pos = Inr n"
  using assms le16_value [of n]
  by (simp add: readUInt16LE_def le16_def nth_append unat_of_nat)

lemma subarray_mid:
  assumes "buf = pre @ xs @ sfx" "pos = length pre" "stop = length pre + length xs"
  shows "subarray buf pos stop = xs"
  using assms by (simp add: subarray_def)

lemma wavLoop_chunk:
  assumes "length cid = 4" "n < 2 ^ 32" "buf = pre @ cid @ le32 n @ sfx" "pos = length pre"
  shows "wavLoop buf pos st =
     (case readChunk buf cid n (pos + 8) st of
        Inl e \<Rightarrow> Inl e
      | Inr st' \<Rightarrow>
          if dataStart st' \<noteq> None \<and> audioFormat st' \<noteq> None then Inr st'
          else wavLoop buf (pos + 8 + n + n mod 2) st')"
proof -
  have size: "readUInt32LE buf (pos + 4) = Inr n"
    using assms by (intro readUInt32LE_le32 [where pre = "pre @ cid" and sfx = sfx]) simp_all
  have ident: "subarray buf pos (pos + 4) = cid"
    using assms by (intro subarray_mid [where pre = pre and sfx = "le32 n @ sfx"]) simp_all
  have inside: "pos + 8 \<le> length buf"
    using assms by simp
  show ?thesis
    by (subst wavLoop.simps) (simp add: size ident inside)
qed

lemma wavLoop_other:
  assumes "otherChunk c" "\<not> (dataStart st \<noteq> None \<and> audioFormat st \<noteq> None)"
    "buf = pre @ riffChunk (fst c) (snd c) @ sfx" "pos = length pre"
  shows "wavLoop buf pos st = wavLoop buf (pos + length (riffChunk (fst c) (snd c))) st"
proof -
  let ?pad = "if odd (length (snd c)) then [0::byte] else []"
  have buf: "buf = pre @ fst c @ le32 (length (snd c)) @ (snd c @ ?pad @ sfx)"
    using assms(3) by (simp add: riffChunk_def)
  have skip: "readChunk buf (fst c) (length (snd c)) (pos + 8) st = Inr st"
    using assms(1) by (simp add: readChunk_def otherChunk_def)
  have eq: "wavLoop buf pos st =
     (case readChunk buf (fst c) (length (snd c)) (pos + 8) st of
        Inl e \<Rightarrow> Inl e
      | Inr st' \<Rightarrow>
          if dataStart st' \<noteq> None \<and> audioFormat st' \<noteq> None then Inr st'
          else wavLoop buf (pos + 8 + length (snd c) + length (snd c) mod 2) st')"
    using assms(1) by (intro wavLoop_chunk [OF _ _ buf assms(4)]) (simp_all add: otherChunk_def)
  have e2: "pos + 8 + length (snd c) + length (snd c) mod 2
      = pos + length (riffChunk (fst c) (snd c))"
    using assms(1) by (simp add: length_riffChunk otherChunk_def)
  have "wavLoop buf pos st = wavLoop buf (pos + 8 + length (snd c) + length (snd c) mod 2) st"
    unfolding eq skip using assms(2) by auto
  then show ?thesis by (simp only: e2)
qed

lemma wavLoop_skip:
  assumes "list_all otherChunk cs" "\<not> (dataStart st \<noteq> None \<and> audioFormat st \<noteq> None)"
    "buf = pre @ riffChunks cs @ sfx" "pos = length pre"
  shows "wavLoop buf pos st = wavLoop buf (pos + length (riffChunks cs)) st"
  using assms
proof (induction cs arbitrary: pre pos)
  case Nil
  then show ?case by (simp add: riffChunks_def)
next
  case (Cons c cs)
  let ?c = "riffChunk (fst c) (snd c)"
  have buf1: "buf = pre @ ?c @ (riffChunks cs @ sfx)"
    using Cons.prems(3) by (simp add: riffChunks_def)
  have buf2: "buf = (pre @ ?c) @ riffChunks cs @ sfx"
    using buf1 by simp
  have "wavLoop buf pos st = wavLoop buf (pos + length ?c) st"
    using Cons.prems by (intro wavLoop_other [OF _ _ buf1]) simp_all
  also have "\<dots> = wavLoop buf (pos + length ?c + length (riffChunks cs)) st"
    using Cons.prems by (intro Cons.IH [OF _ _ buf2]) simp_all
  finally show ?case by (simp add: riffChunks_def add.assoc)
qed

lemma readFmt_tag:
  assumes "tag < 65536" "14 \<le> length fmtRest" "buf = pre @ le16 tag @ fmtRest @ sfx"
    "pos = length pre"
  shows "\<exists>st'. readFmt buf pos st = Inr st' \<and> audioFormat st' = Some tag
           \<and> dataStart st' = dataStart st \<and> dataSize st' = dataSize st"
proof -
  have tag: "readUInt16LE buf (pos + 0) = Inr tag"
    using assms by (intro readUInt16LE_le16 [where pre = pre and sfx = "fmtRest @ sfx"]) simp_all
  have len: "pos + 16 \<le> length buf"
    using assms by simp
  have r1: "\<exists>nc. readUInt16LE buf (pos + 2) = Inr nc"
    and r2: "\<exists>sr. readUInt32LE buf (pos + 4) = Inr sr"
    and r3: "\<exists>bps. readUInt16LE buf (pos + 14) = Inr bps"
    using len by (simp_all add: readUInt16LE_def readUInt32LE_def)
  from r1 r2 r3 obtain nc sr bps where
    "readUInt16LE buf (pos + 2) = Inr nc" "readUInt32LE buf (pos + 4) = Inr sr"
    "readUInt16LE buf (pos + 14) = Inr bps" by blast
  then show ?thesis
    unfolding readFmt_def tag by simp
qed

lemma wavLoop_fmt:
  assumes "tag < 65536" "14 \<le> length fmtRest" "length fmtRest + 2 < 2 ^ 32"
    "dataStart st = None"
    "buf = pre @ riffChunk (ascii ''fmt '') (le16 tag @ fmtRest) @ sfx" "pos = length pre"
  shows "\<exists>st'. audioFormat st' = Some tag \<and> dataStart st' = None \<and>
           wavLoop buf pos st
             = wavLoop buf (pos + length (riffChunk (ascii ''fmt '') (le16 tag @ fmtRest))) st'"
proof -
  let ?body = "le16 tag @ fmtRest"
  let ?pad = "if odd (length ?body) then [0::byte] else []"
  have buf: "buf = pre @ ascii ''fmt '' @ le32 (length ?body) @ (?body @ ?pad @ sfx)"
    using assms(5) by (simp add: riffChunk_def)
  have buf': "buf = (pre @ ascii ''fmt '' @ le32 (length ?body)) @ le16 tag @ fmtRest @ (?pad @ sfx)"
    using buf by simp
  have p8: "pos + 8 = length (pre @ ascii ''fmt '' @ le32 (length ?body))"
    using assms(6) by simp
  from readFmt_tag [OF assms(1,2) buf' p8, of st]
  obtain st' where st': "readFmt buf (pos + 8) st = Inr st'" "audioFormat st' = Some tag"
    "dataStart st' = dataStart st"
    by blast
  have chunk: "readChunk buf (ascii ''fmt '') (length ?body) (pos + 8) st = Inr st'"
    by (simp add: readChunk_def st')
  have eq: "wavLoop buf pos st =
     (case readChunk buf (ascii ''fmt '') (length ?body) (pos + 8) st of
        Inl e \<Rightarrow> Inl e
      | Inr st' \<Rightarrow>
          if dataStart st' \<noteq> None \<and> audioFormat st' \<noteq> None then Inr st'
          else wavLoop buf (pos + 8 + length ?body + length ?body mod 2) st')"
    using assms(3) by (intro wavLoop_chunk [OF _ _ buf assms(6)]) simp_all
  have e2: "pos + 8 + length ?body + length ?body mod 2
      = pos + length (riffChunk (ascii ''fmt '') ?body)"
    by (simp add: length_riffChunk)
  have "wavLoop buf pos st = wavLoop buf (pos + 8 + length ?body + length ?body mod 2) st'"
    unfolding eq chunk using st'(2,3) assms(4) by simp
  then have "wavLoop buf pos st = wavLoop buf (pos + length (riffChunk (ascii ''fmt '') ?body)) st'"
    by (simp only: e2)
  with st'(2,3) assms(4) show ?thesis by (intro exI [of _ st']) simp
qed

lemma ascii_data_not_fmt: "ascii ''data'' \<noteq> ascii ''fmt ''"
  by (simp add: ascii_def)

lemma wavLoop_data:
  assumes "audioFormat st \<noteq> None" "length X < 2 ^ 32"
    "buf = pre @ ascii ''data'' @ le32 (length X) @ X @ rest" "pos = length pre"
  shows "wavLoop buf pos st = Inr (st\<lparr>dataStart := Some (pos + 8), dataSize := Some (length X)\<rparr>)"
proof -
  have chunk: "readChunk buf (ascii ''data'') (length X) (pos + 8) st
      = Inr (st\<lparr>dataStart := Some (pos + 8), dataSize := Some (length X)\<rparr>)"
    by (simp add: readChunk_def ascii_data_not_fmt)
  have eq: "wavLoop buf pos st =
     (case readChunk buf (ascii ''data'') (length X) (pos + 8) st of
        Inl e \<Rightarrow> Inl e
      | Inr st' \<Rightarrow>
          if dataStart st' \<noteq> None \<and> audioFormat st' \<noteq> None then Inr st'
          else wavLoop buf (pos + 8 + length X + length X mod 2) st')"
    using assms(2) by (intro wavLoop_chunk [OF _ _ assms(3,4)]) simp_all
  show ?thesis
    unfolding eq chunk using assms(1) by simp
qed

lemma wavHeader_signature:
  assumes "length sz = 4"
  shows "length (wavHeader sz) = 12" "subarray (wavHeader sz @ others) 0 4 = ascii ''RIFF''"
    "subarray (wavHeader sz @ others) 8 12 = ascii ''WAVE''"
  using assms by (simp_all add: wavHeader_def subarray_def ascii_def)

lemma parse_wavFile:
  assumes "length sz = 4" "list_all otherChunk pre" "list_all otherChunk mid"
    "tag < 65536" "14 \<le> length fmtRest" "length fmtRest + 2 < 2 ^ 32" "length X < 2 ^ 32"
  shows "\<exists>info. parseWavAndExtractData (wavFile sz pre (le16 tag @ fmtRest) mid X rest) = Inr info
           \<and> audioFormat info = Some tag \<and> data info = X"
proof -
  let ?H = "wavHeader sz"
  let ?P = "riffChunks pre"
  let ?F = "riffChunk (ascii ''fmt '') (le16 tag @ fmtRest)"
  let ?M = "riffChunks mid"
  let ?D = "ascii ''data'' @ le32 (length X)"
  let ?buf = "wavFile sz pre (le16 tag @ fmtRest) mid X rest"
  have buf: "?buf = ?H @ ?P @ ?F @ ?M @ ?D @ X @ rest"
    by (simp add: wavFile_def)
  have sig: "subarray ?buf 0 4 = ascii ''RIFF''" "subarray ?buf 8 12 = ascii ''WAVE''"
    unfolding buf using wavHeader_signature [OF assms(1)] by simp_all
  have lenH: "length ?H = 12"
    using wavHeader_signature [OF assms(1)] by simp
  have step1: "wavLoop ?buf 12 wav_vars0 = wavLoop ?buf (12 + length ?P) wav_vars0"
    using assms(2) lenH
    by (intro wavLoop_skip [where pre = ?H and sfx = "?F @ ?M @ ?D @ X @ rest"])
       (simp_all add: wav_vars0_def buf)
  obtain st1 where st1: "audioFormat st1 = Some tag" "dataStart st1 = None"
    "wavLoop ?buf (12 + length ?P) wav_vars0 = wavLoop ?buf (12 + length ?P + length ?F) st1"
    using wavLoop_fmt [OF assms(4,5,6), of wav_vars0 ?buf "?H @ ?P" "?M @ ?D @ X @ rest"
        "12 + length ?P"] lenH
    by (auto simp: wav_vars0_def buf)
  have step3: "wavLoop ?buf (12 + length ?P + length ?F) st1
      = wavLoop ?buf (12 + length ?P + length ?F + length ?M) st1"
    using assms(3) lenH st1(2)
    by (intro wavLoop_skip [where pre = "?H @ ?P @ ?F" and sfx = "?D @ X @ rest"])
       (simp_all add: buf)
  define ds where "ds = 12 + length ?P + length ?F + length ?M + 8"
  have step4: "wavLoop ?buf (12 + length ?P + length ?F + length ?M) st1
      = Inr (st1\<lparr>dataStart := Some ds, dataSize := Some (length X)\<rparr>)"
    unfolding ds_def using assms(7) lenH st1(1)
    by (intro wavLoop_data [where pre = "?H @ ?P @ ?F @ ?M" and rest = rest])
       (simp_all add: buf)
  have loop: "wavLoop ?buf 12 wav_vars0
      = Inr (st1\<lparr>dataStart := Some ds, dataSize := Some (length X)\<rparr>)"
    using step1 st1(3) step3 step4 by simp
  have dat: "subarray ?buf ds (ds + length X) = X"
    using lenH
    by (intro subarray_mid [where pre = "?H @ ?P @ ?F @ ?M @ ?D" and sfx = rest])
       (simp_all add: buf ds_def)
  show ?thesis
    unfolding parseWavAndExtractData_def loop by (simp add: sig dat st1)
qed

lemma ascii_RIFF: "ascii ''RIFF'' = [0x52, 0x49, 0x46, 0x46]"
  by (simp add: ascii_def)

lemma wavFile_is_wav:
  assumes "length sz = 4"
  shows "12 \<le> length (wavFile sz pre fb mid X rest)"
    "subarray (wavFile sz pre fb mid X rest) 0 4 = ascii ''RIFF''"
    "subarray (wavFile sz pre fb mid X rest) 8 12 = ascii ''WAVE''"
  using wavHeader_signature [OF assms] by (simp_all add: wavFile_def)

text \<open>
  The normalizer of the first unnamed file, \<open>ensureRawUlawBase64\<close>, reads the format chunk.
  For a buffer laid out as a RIFF/WAVE file (header; chunks other than \<open>fmt\<close> and \<open>data\<close>; a
  format chunk of at least 16 bytes whose encoding tag is \<open>tag\<close>; more such chunks; the data
  chunk with body \<open>X\<close>; anything after it), it returns \<open>X\<close> itself, re-encoded, with note
  \<open>stripped-wav\<close> when \<open>tag = 7\<close>, and the failure \<open>wav-not-ulaw(fmt=tag)\<close> with no bytes for
  every other tag.
\<close>

lemma normalize_wav:
  assumes "truthy inB64"
    and "from_base64 B inB64 = Inr (wavFile sz pre (le16 tag @ fmtRest) mid X rest)"
    and "length sz = 4" "list_all otherChunk pre" "list_all otherChunk mid"
    and "tag < 65536" "14 \<le> length fmtRest" "length fmtRest + 2 < 2 ^ 32"
    and "length X < 2 ^ 32"
  shows "(tag = 7 \<longrightarrow>
            ensureRawUlawBase64 B inB64 = Inr (Ok (JStr (to_base64 B X)) StrippedWav))
       \<and> (tag \<noteq> 7 \<longrightarrow>
            ensureRawUlawBase64 B inB64 = Inr (NotOk (WavNotUlaw (Some tag))))"
proof -
  define buf where "buf = wavFile sz pre (le16 tag @ fmtRest) mid X rest"
  obtain info where info: "parseWavAndExtractData buf = Inr info"
    "audioFormat info = Some tag" "data info = X"
    unfolding buf_def using parse_wavFile [OF assms(3-9)] by blast
  have wav: "12 \<le> length buf" "subarray buf 0 4 = ascii ''RIFF''"
    "subarray buf 8 12 = ascii ''WAVE''"
    unfolding buf_def by (rule wavFile_is_wav [OF assms(3)])+
  have dec: "from_base64 B inB64 = Inr buf"
    unfolding buf_def by (rule assms(2))
  show ?thesis
    using assms(1) by (simp add: ensureRawUlawBase64_def dec wav info)
qed

text \<open>A 48-byte WAV with data 01 02 03 04, once with tag 7 and once with tag 1 (PCM).\<close>

lemma decode_wav7:
  "from_base64 nodeBuffer
     (JStr ''UklGRgAAAABXQVZFZm10IBAAAAAHAAEAQB8AAEAfAAABAAgAZGF0YQQAAAABAgME'')
   = Inr (wavFile [0, 0, 0, 0] [] (le16 7 @ le16 1 @ le32 8000 @ le32 8000 @ le16 1 @ le16 8) []
            [1, 2, 3, 4] [])"
  by (simp add: nodeBuffer_def base64_decode_def b64index_def List.map_filter_simps
      wavFile_def wavHeader_def riffChunks_def riffChunk_def le16_def le32_def ascii_def)

lemma decode_wav1:
  "from_base64 nodeBuffer
     (JStr ''UklGRgAAAABXQVZFZm10IBAAAAABAAEAQB8AAIA+AAACABAAZGF0YQQAAAABAgME'')
   = Inr (wavFile [0, 0, 0, 0] [] (le16 1 @ le16 1 @ le32 8000 @ le32 16000 @ le16 2 @ le16 16) []
            [1, 2, 3, 4] [])"
  by (simp add: nodeBuffer_def base64_decode_def b64index_def List.map_filter_simps
      wavFile_def wavHeader_def riffChunks_def riffChunk_def le16_def le32_def ascii_def)

lemma normalize_wav_examples:
  "ensureRawUlawBase64 nodeBuffer
     (JStr ''UklGRgAAAABXQVZFZm10IBAAAAAHAAEAQB8AAEAfAAABAAgAZGF0YQQAAAABAgME'')
     = Inr (Ok (JStr ''AQIDBA=='') StrippedWav)
   \<and> ensureRawUlawBase64 nodeBuffer
     (JStr ''UklGRgAAAABXQVZFZm10IBAAAAABAAEAQB8AAIA+AAACABAAZGF0YQQAAAABAgME'')
     = Inr (NotOk (WavNotUlaw (Some 1)))
   \<and> to_base64 nodeBuffer [1, 2, 3, 4] = ''AQIDBA==''"
proof -
  have enc: "to_base64 nodeBuffer [1, 2, 3, 4] = ''AQIDBA==''"
    by (simp add: nodeBuffer_def b64char_def b64chars_def)
  have a: "ensureRawUlawBase64 nodeBuffer
     (JStr ''UklGRgAAAABXQVZFZm10IBAAAAAHAAEAQB8AAEAfAAABAAgAZGF0YQQAAAABAgME'')
     = Inr (Ok (JStr (to_base64 nodeBuffer [1, 2, 3, 4])) StrippedWav)"
    using normalize_wav [OF _ decode_wav7] by simp
  have b: "ensureRawUlawBase64 nodeBuffer
     (JStr ''UklGRgAAAABXQVZFZm10IBAAAAABAAEAQB8AAIA+AAACABAAZGF0YQQAAAABAgME'')
     = Inr (NotOk (WavNotUlaw (Some 1)))"
    using normalize_wav [OF _ decode_wav1] by simp
  from a b enc show ?thesis by simp
qed





lemma agent_audio_chunk_queued:
  assumes "p \<noteq> []" "from_base64 B (JStr p) = Inr buf"
  shows "step B (ELMessage (Some (JObj [(''agent_audio_chunk'', JStr p)]))) s =
           s\<lparr>stats := (stats s)\<lparr>elAudioFrames := elAudioFrames (stats s) + 1\<rparr>,
             outQueue := outQueue s @
               map (\<lambda>frame. JStr (to_base64 B frame)) (packetize (stripWaveIfNeeded buf) 0)\<rparr>"
  using assms
  by (simp add: elevenLabsOnMessage_def elevenLabsMessageBody_def initiationMetadataBlock_def
      isInitiationMetadata_def extractAudio_def field_def enqueueELBase64_def)

lemma start_example:
  "step B (TwilioMessage (Some startEvent)) (initialSession [])
     = (initialSession [])\<lparr>streamSid := JStr ''CA123'', pacerTimer := True\<rparr>"
  by (simp add: twilioOnMessage_def twilioMessageBody_def startEvent_def field_def jsOr_def
      logTemplate_def startPacer_def initialSession_def)

lemma packetize_short:
  "buf \<noteq> [] \<Longrightarrow> length buf \<le> 160 \<Longrightarrow> packetize buf 0 = [buf]"
  by (simp add: packetize.simps subarray_def FRAME_BYTES_def)


text \<open>
  Claim C10. Some buffers that start with the RIFF/WAVE signature make the normalizer
  throw instead of returning a failure value: whenever the chunk walk passes only chunks
  other than \<open>fmt\<close> and \<open>data\<close> and fewer than eight bytes are left, the parser throws
  \<open>Error("WAV has no data chunk")\<close>, and \<open>ensureRawUlawBase64\<close>, which has no \<open>try\<close>, lets
  the exception out.
\<close>

theorem wav_without_data_throws:
  assumes "truthy inB64"
    and "from_base64 B inB64 = Inr (wavHeader sz @ riffChunks cs @ trailing)"
    and "length sz = 4" "list_all otherChunk cs" "length trailing < 8"
  shows "parseWavAndExtractData (wavHeader sz @ riffChunks cs @ trailing)
           = Inl (Error ''WAV has no data chunk'')
       \<and> ensureRawUlawBase64 B inB64 = Inl (Error ''WAV has no data chunk'')"
proof -
  define buf where "buf = wavHeader sz @ riffChunks cs @ trailing"
  have lenH: "length (wavHeader sz) = 12"
    and sig: "subarray buf 0 4 = ascii ''RIFF''" "subarray buf 8 12 = ascii ''WAVE''"
    unfolding buf_def using wavHeader_signature [OF assms(3)] by simp_all
  have len: "length buf = 12 + length (riffChunks cs) + length trailing"
    by (simp add: buf_def lenH)
  have "wavLoop buf 12 wav_vars0 = wavLoop buf (12 + length (riffChunks cs)) wav_vars0"
    using assms(4) lenH
    by (intro wavLoop_skip [where pre = "wavHeader sz" and sfx = trailing])
       (simp_all add: wav_vars0_def buf_def)
  also have "\<dots> = Inr wav_vars0"
    using assms(5) by (subst wavLoop.simps) (simp add: len)
  finally have loop: "wavLoop buf 12 wav_vars0 = Inr wav_vars0" .
  have parse: "parseWavAndExtractData buf = Inl (Error ''WAV has no data chunk'')"
    unfolding parseWavAndExtractData_def loop by (simp add: sig wav_vars0_def)
  have dec: "from_base64 B inB64 = Inr buf"
    unfolding buf_def by (rule assms(2))
  have "ensureRawUlawBase64 B inB64 = Inl (Error ''WAV has no data chunk'')"
    using assms(1) by (simp add: ensureRawUlawBase64_def dec sig parse len)
  with parse show ?thesis unfolding buf_def by simp
qed

text \<open>A WAV with a LIST chunk and three stray bytes, and the bare 12-byte header.\<close>

theorem wav_without_data_throws_witness:
  "from_base64 nodeBuffer (JStr ''UklGRgAAAABXQVZFTElTVAIAAAABAgkJCQ=='')
     = Inr (wavHeader [0, 0, 0, 0] @ riffChunks [(ascii ''LIST'', [1, 2])] @ [9, 9, 9])
   \<and> ensureRawUlawBase64 nodeBuffer (JStr ''UklGRgAAAABXQVZFTElTVAIAAAABAgkJCQ=='')
     = Inl (Error ''WAV has no data chunk'')
   \<and> from_base64 nodeBuffer (JStr ''UklGRgAAAABXQVZF'') = Inr (wavHeader [0, 0, 0, 0] @ riffChunks [] @ [])
   \<and> ensureRawUlawBase64 nodeBuffer (JStr ''UklGRgAAAABXQVZF'')
     = Inl (Error ''WAV has no data chunk'')"
proof -
  have d1: "from_base64 nodeBuffer (JStr ''UklGRgAAAABXQVZFTElTVAIAAAABAgkJCQ=='')
     = Inr (wavHeader [0, 0, 0, 0] @ riffChunks [(ascii ''LIST'', [1, 2])] @ [9, 9, 9])"
    and d2: "from_base64 nodeBuffer (JStr ''UklGRgAAAABXQVZF'')
     = Inr (wavHeader [0, 0, 0, 0] @ riffChunks [] @ [])"
    by (simp_all add: nodeBuffer_def base64_decode_def b64index_def List.map_filter_simps
        wavHeader_def riffChunks_def riffChunk_def le32_def ascii_def)
  have other: "list_all otherChunk [(ascii ''LIST'', [1, 2])]"
    by (simp add: otherChunk_def ascii_def)
  have a: "ensureRawUlawBase64 nodeBuffer (JStr ''UklGRgAAAABXQVZFTElTVAIAAAABAgkJCQ=='')
     = Inl (Error ''WAV has no data chunk'')"
    using wav_without_data_throws [OF _ d1 _ other] by simp
  have b: "ensureRawUlawBase64 nodeBuffer (JStr ''UklGRgAAAABXQVZF'')
     = Inl (Error ''WAV has no data chunk'')"
    using wav_without_data_throws [OF _ d2] by simp
  from d1 d2 a b show ?thesis by simp
qed

section \<open>Containers on the relay of inbound-calls.js\<close>

text \<open>\<open>enqueueELBase64\<close> passes the decoded bytes through \<open>stripWaveIfNeeded\<close>, which looks
  for the first \<open>data\<close> marker and returns everything after the marker and the four size
  bytes, to the end of the buffer. It reads neither the format chunk nor the size of the
  data chunk.\<close>

lemma stripWaveIfNeeded_wavFile:
  assumes "indexOf (wavFile sz pre fb mid X rest) (ascii ''data'') = Some i"
    and "i = length (wavHeader sz @ riffChunks pre @ riffChunk (ascii ''fmt '') fb @ riffChunks mid)"
    and "length sz = 4"
  shows "stripWaveIfNeeded (wavFile sz pre fb mid X rest) = X @ rest"
proof -
  define before where "before = wavHeader sz @ riffChunks pre @ riffChunk (ascii ''fmt '') fb @ riffChunks mid"
  have buf: "wavFile sz pre fb mid X rest = before @ ascii ''data'' @ le32 (length X) @ X @ rest"
    by (simp add: wavFile_def before_def)
  have i: "i = length before"
    by (simp add: assms(2) before_def)
  have pos: "0 < length before"
    using assms(3) by (simp add: before_def wavHeader_def)
  have sig: "12 \<le> length (wavFile sz pre fb mid X rest)"
    "subarray (wavFile sz pre fb mid X rest) 0 4 = ascii ''RIFF''"
    by (rule wavFile_is_wav [OF assms(3)])+
  show ?thesis
    using pos by (simp add: stripWaveIfNeeded_def sig assms(1)) (simp add: buf i subarray_def)
qed

text \<open>
  Claim C5. On the relay of inbound-calls.js a WAV whose encoding tag is 1 (16-bit PCM)
  does not fail: the sibling \<open>ensureRawUlawBase64\<close> rejects the buffer with
  \<open>wav-not-ulaw(fmt=1)\<close>, but \<open>stripWaveIfNeeded\<close> returns its data bytes, \<open>enqueueELBase64\<close>
  queues them as a frame, and the next tick sends the frame on the telephony socket. With
  tag 7 and a data chunk \<open>01 02 03\<close> of odd size, \<open>stripWaveIfNeeded\<close> returns the pad byte
  with the data.
\<close>

theorem wav_format_not_checked:
  "from_base64 nodeBuffer
     (JStr ''UklGRgAAAABXQVZFZm10IBAAAAABAAEAQB8AAIA+AAACABAAZGF0YQQAAAABAgME'')
     = Inr (wavFile [0, 0, 0, 0] [] (fmtBody16 1 1 8000 16) [] [1, 2, 3, 4] [])
   \<and> ensureRawUlawBase64 nodeBuffer
     (JStr ''UklGRgAAAABXQVZFZm10IBAAAAABAAEAQB8AAIA+AAACABAAZGF0YQQAAAABAgME'')
     = Inr (NotOk (WavNotUlaw (Some 1)))
   \<and> stripWaveIfNeeded (wavFile [0, 0, 0, 0] [] (fmtBody16 1 1 8000 16) [] [1, 2, 3, 4] [])
     = [1, 2, 3, 4]
   \<and> outQueue (step nodeBuffer (ELMessage (Some (JObj [(''agent_audio_chunk'',
        JStr ''UklGRgAAAABXQVZFZm10IBAAAAABAAEAQB8AAIA+AAACABAAZGF0YQQAAAABAgME'')])))
        (initialSession [])) = [JStr ''AQIDBA=='']
   \<and> toTwilio (run nodeBuffer
        [TwilioMessage (Some startEvent),
         ELMessage (Some (JObj [(''agent_audio_chunk'',
           JStr ''UklGRgAAAABXQVZFZm10IBAAAAABAAEAQB8AAIA+AAACABAAZGF0YQQAAAABAgME'')])),
         PacerInterval] (initialSession []))
       = [MediaMsg (JStr ''CA123'') (JStr ''AQIDBA=='')]
   \<and> stripWaveIfNeeded (wavFile [0, 0, 0, 0] [] (fmtBody16 7 1 8000 8) [] [1, 2, 3] [0])
     = [1, 2, 3, 0]"
proof -
  let ?pcm = "''UklGRgAAAABXQVZFZm10IBAAAAABAAEAQB8AAIA+AAACABAAZGF0YQQAAAABAgME''"
  define wav where "wav = wavFile [0, 0, 0, 0] [] (fmtBody16 1 1 8000 16) [] [1, 2, 3, 4] []"
  have fb: "fmtBody16 1 1 8000 16 = le16 1 @ le16 1 @ le32 8000 @ le32 16000 @ le16 2 @ le16 16"
    by (simp add: fmtBody16_def)
  have dec: "from_base64 nodeBuffer (JStr ?pcm) = Inr wav"
    unfolding wav_def fb by (rule decode_wav1)
  have sib: "ensureRawUlawBase64 nodeBuffer (JStr ?pcm) = Inr (NotOk (WavNotUlaw (Some 1)))"
    using normalize_wav_examples by simp
  have strip: "stripWaveIfNeeded wav = [1, 2, 3, 4]"
    unfolding wav_def
    by (simp add: stripWaveIfNeeded_def wavFile_def wavHeader_def riffChunks_def riffChunk_def
        fmtBody16_def le16_def le32_def ascii_def subarray_def)
  have odd: "stripWaveIfNeeded (wavFile [0, 0, 0, 0] [] (fmtBody16 7 1 8000 8) [] [1, 2, 3] [0])
     = [1, 2, 3, 0]"
    by (simp add: stripWaveIfNeeded_def wavFile_def wavHeader_def riffChunks_def riffChunk_def
        fmtBody16_def le16_def le32_def ascii_def subarray_def)
  have enc: "to_base64 nodeBuffer [1, 2, 3, 4] = ''AQIDBA==''"
    by (simp add: nodeBuffer_def b64char_def b64chars_def)
  have frames: "map (\<lambda>frame. JStr (to_base64 nodeBuffer frame))
      (packetize (stripWaveIfNeeded wav) 0) = [JStr ''AQIDBA=='']"
    unfolding strip by (simp add: packetize_short enc)
  have q0: "outQueue (step nodeBuffer (ELMessage (Some (JObj [(''agent_audio_chunk'', JStr ?pcm)])))
        (initialSession [])) = [JStr ''AQIDBA=='']"
    by (subst agent_audio_chunk_queued [OF _ dec]) (simp_all add: frames initialSession_def)
  define s2 where "s2 = step nodeBuffer
      (ELMessage (Some (JObj [(''agent_audio_chunk'', JStr ?pcm)])))
      (step nodeBuffer (TwilioMessage (Some startEvent)) (initialSession []))"
  have s2: "outQueue s2 = [JStr ''AQIDBA=='']" "streamSid s2 = JStr ''CA123''"
    "connection s2 = OPEN" "pacerTimer s2" "toTwilio s2 = []"
    unfolding s2_def start_example
    by (subst agent_audio_chunk_queued [OF _ dec], simp, simp add: frames initialSession_def)+
  have "pacerTick nodeBuffer s2 =
      s2\<lparr>outQueue := [], toTwilio := toTwilio s2 @ [MediaMsg (streamSid s2) (JStr ''AQIDBA=='')],
         stats := stats (pacerTick nodeBuffer s2)\<rparr>"
    by (rule pacerTick_send) (simp_all add: s2)
  then have "toTwilio (pacerTick nodeBuffer s2) = toTwilio s2 @ [MediaMsg (streamSid s2) (JStr ''AQIDBA=='')]"
    by (rule ssubst) simp
  then have sent: "toTwilio (step nodeBuffer PacerInterval s2)
      = [MediaMsg (JStr ''CA123'') (JStr ''AQIDBA=='')]"
    by (simp add: s2)
  have ran: "toTwilio (run nodeBuffer
        [TwilioMessage (Some startEvent),
         ELMessage (Some (JObj [(''agent_audio_chunk'', JStr ?pcm)])),
         PacerInterval] (initialSession []))
       = [MediaMsg (JStr ''CA123'') (JStr ''AQIDBA=='')]"
    using sent unfolding s2_def run_def by (simp only: fold_simps comp_apply)
  from dec sib strip q0 ran odd show ?thesis
    unfolding wav_def by simp
qed

section \<open>The other versions of the relay\<close>

text \<open>The \<open>stop\<close> case of the second unnamed file closes the agent socket as well.\<close>

lemma twilioStop_v2_closes_agent:
  "elevenLabsWs s = Some OPEN \<Longrightarrow> elevenLabsWs (twilioStop_v2 s) = Some CLOSING"
  by (simp add: twilioStop_v2_def closeEL_def stopPacer_def)

section \<open>Frames in the queue\<close>

text \<open>The queue only ever receives frames that are truthy strings, for a codec that encodes
  a buffer that is not empty as a string that is not empty, as base64 does.\<close>

lemma base64_encode_Nil_iff: "base64_encode bs = [] \<longleftrightarrow> bs = []"
  by (induction bs rule: base64_encode.induct) simp_all

lemma enqueue_keeps_frames_truthy:
  assumes "\<forall>b. b \<noteq> [] \<longrightarrow> to_base64 B b \<noteq> []" "\<forall>f \<in> set (outQueue s). truthy f"
    "enqueueELBase64 B v s = Returned s'"
  shows "\<forall>f \<in> set (outQueue s'). truthy f"
proof (cases "from_base64 B v")
  case (Inl e)
  with assms(3) show ?thesis by (simp add: enqueueELBase64_def)
next
  case (Inr buf)
  have "to_base64 B frame \<noteq> []" if "frame \<in> set (packetize (stripWaveIfNeeded buf) 0)" for frame
    using packetize_frame_bounds [OF that] assms(1) by auto
  with assms(2,3) Inr show ?thesis by (auto simp: enqueueELBase64_def)
qed

end
